theory Spec2Isabelle
  imports Complex_Main
begin

section \<open>Data model\<close>

text \<open>
  A JavaScript number as far as \<^verbatim>\<open>filterTripsByTime\<close> needs it: an integer, or
  \<^verbatim>\<open>NaN\<close> (what \<^verbatim>\<open>getHours()\<close> of an invalid date and \<^verbatim>\<open>Number('')\<close> of a
  non-numeric slider value give). Arithmetic propagates \<^verbatim>\<open>NaN\<close>; every comparison
  with \<^verbatim>\<open>NaN\<close> is false.
\<close>

datatype number = NaN | Num int

fun js_mul :: "number \<Rightarrow> number \<Rightarrow> number" where
  "js_mul (Num a) (Num b) = Num (a * b)"
| "js_mul _ _ = NaN"

fun js_add :: "number \<Rightarrow> number \<Rightarrow> number" where
  "js_add (Num a) (Num b) = Num (a + b)"
| "js_add _ _ = NaN"

fun js_sub :: "number \<Rightarrow> number \<Rightarrow> number" where
  "js_sub (Num a) (Num b) = Num (a - b)"
| "js_sub _ _ = NaN"

fun js_le :: "number \<Rightarrow> number \<Rightarrow> bool" where
  "js_le (Num a) (Num b) = (a \<le> b)"
| "js_le _ _ = False"

fun Math_abs :: "number \<Rightarrow> number" where
  "Math_abs (Num a) = Num (if a < 0 then - a else a)"
| "Math_abs NaN = NaN"

text \<open>
  A \<^verbatim>\<open>Date\<close> object as the program observes it: the local-time hour and minute, or
  an invalid date (\<^verbatim>\<open>new Date(text)\<close> on text that does not parse), whose getters
  return \<^verbatim>\<open>NaN\<close>.
\<close>

datatype date = Invalid_Date | Date nat nat

fun getHours :: "date \<Rightarrow> number" where
  "getHours (Date h m) = Num (int h)"
| "getHours Invalid_Date = NaN"

fun getMinutes :: "date \<Rightarrow> number" where
  "getMinutes (Date h m) = Num (int m)"
| "getMinutes Invalid_Date = NaN"

text \<open>A row of the trips CSV after the loader has parsed its two timestamps.\<close>

record trip =
  start_station_id :: string
  end_station_id :: string
  started_at :: date
  ended_at :: date

section \<open>The time-window filter\<close>

text \<open>\<^verbatim>\<open>minutesSinceMidnight(date)\<close>: \<^verbatim>\<open>date.getHours() * 60 + date.getMinutes()\<close>.\<close>

definition minutesSinceMidnight :: "date \<Rightarrow> number" where
  "minutesSinceMidnight d = js_add (js_mul (getHours d) (Num 60)) (getMinutes d)"

text \<open>
  \<^verbatim>\<open>filterTripsByTime(trips, timeFilter)\<close>: the sentinel \<^verbatim>\<open>-1\<close> returns the array
  itself; any other value keeps the trips that start or end within 60 minutes of it.
\<close>

definition filterTripsByTime :: "trip list \<Rightarrow> number \<Rightarrow> trip list" where
  "filterTripsByTime trips timeFilter =
     (if timeFilter = Num (- 1) then trips
      else filter (\<lambda>trip.
             let startedMinutes = minutesSinceMidnight (started_at trip);
                 endedMinutes = minutesSinceMidnight (ended_at trip)
             in js_le (Math_abs (js_sub startedMinutes timeFilter)) (Num 60) \<or>
                js_le (Math_abs (js_sub endedMinutes timeFilter)) (Num 60)) trips)"

text \<open>
  The window as the specification words it: the time of day of a timestamp is
  \<open>hour * 60 + minute\<close>, and a timestamp is near the center when the plain absolute
  difference is at most 60. An invalid date has no time of day and is near nothing.
\<close>

definition near_center :: "int \<Rightarrow> date \<Rightarrow> bool" where
  "near_center c d =
     (case d of Invalid_Date \<Rightarrow> False | Date h m \<Rightarrow> \<bar>int h * 60 + int m - c\<bar> \<le> 60)"

section \<open>Stations and the object store\<close>

text \<open>
  A station object of the stations JSON. The three traffic properties are absent
  (\<open>None\<close>) until \<^verbatim>\<open>computeStationTraffic\<close> assigns them.
\<close>

record station =
  short_name :: string
  lat :: real
  lon :: real
  arrivals :: "nat option"
  departures :: "nat option"
  totalTraffic :: "nat option"

text \<open>
  Station objects are shared and mutated, so they live in a store: an array of stations
  is a list of references, \<open>objs\<close> gives the object behind each reference, and
  \<open>next_ref\<close> is the first reference no object has been created at yet.
\<close>

type_synonym ref = nat

record heap =
  objs :: "ref \<Rightarrow> station"
  next_ref :: ref

section \<open>The traffic aggregator\<close>

text \<open>
  \<^verbatim>\<open>d3.rollup(values, reduce, key)\<close> of the d3-array library (not part of the
  repository), after its implementation: the values are put into groups under their key,
  each group in order of appearance, and every group is then replaced by
  \<open>reduce group\<close>. The result is a \<^verbatim>\<open>Map\<close>; \<open>None\<close> is a key it does not hold.
\<close>

fun group_into :: "('k \<rightharpoonup> 'a list) \<Rightarrow> ('a \<Rightarrow> 'k) \<Rightarrow> 'a list \<Rightarrow> ('k \<rightharpoonup> 'a list)" where
  "group_into groups key [] = groups"
| "group_into groups key (v # vs) =
     group_into
       (case groups (key v) of
          Some g \<Rightarrow> groups(key v \<mapsto> g @ [v])
        | None \<Rightarrow> groups(key v \<mapsto> [v]))
       key vs"

definition rollup :: "'a list \<Rightarrow> ('a list \<Rightarrow> 'b) \<Rightarrow> ('a \<Rightarrow> 'k) \<Rightarrow> ('k \<rightharpoonup> 'b)" where
  "rollup vs reduce key = (\<lambda>k. map_option reduce (group_into Map.empty key vs k))"

text \<open>\<^verbatim>\<open>x ?? 0\<close> on the result of \<^verbatim>\<open>Map.get\<close>.\<close>

definition nullish_zero :: "nat option \<Rightarrow> nat" where
  "nullish_zero x = (case x of None \<Rightarrow> 0 | Some n \<Rightarrow> n)"

text \<open>
  The callback of \<^verbatim>\<open>stations.map\<close> in \<^verbatim>\<open>computeStationTraffic\<close>, run on the object
  behind \<open>r\<close>: it assigns the three properties on that object and returns the same
  reference. \<open>totalTraffic\<close> is the sum of the two properties just assigned.
\<close>

definition assign_traffic ::
  "(string \<rightharpoonup> nat) \<Rightarrow> (string \<rightharpoonup> nat) \<Rightarrow> heap \<Rightarrow> ref \<Rightarrow> heap \<times> ref" where
  "assign_traffic arrivals_by_id departures_by_id h r =
     (let station = objs h r;
          id = short_name station;
          station = station\<lparr>arrivals := Some (nullish_zero (arrivals_by_id id))\<rparr>;
          station = station\<lparr>departures := Some (nullish_zero (departures_by_id id))\<rparr>;
          station = station\<lparr>totalTraffic :=
            Some (nullish_zero (arrivals station) + nullish_zero (departures station))\<rparr>
      in (h\<lparr>objs := (objs h)(r := station)\<rparr>, r))"

text \<open>
  \<^verbatim>\<open>Array.prototype.map\<close> with a callback that works on the store: the elements are
  visited in order, and the results are collected into a new array.
\<close>

fun array_map :: "(heap \<Rightarrow> ref \<Rightarrow> heap \<times> ref) \<Rightarrow> heap \<Rightarrow> ref list \<Rightarrow> heap \<times> ref list" where
  "array_map f h [] = (h, [])"
| "array_map f h (r # rs) =
     (case f h r of (h1, r') \<Rightarrow>
        (case array_map f h1 rs of (h2, rs') \<Rightarrow> (h2, r' # rs')))"

text \<open>\<^verbatim>\<open>computeStationTraffic(stations, trips)\<close>.\<close>

definition computeStationTraffic :: "heap \<Rightarrow> ref list \<Rightarrow> trip list \<Rightarrow> heap \<times> ref list" where
  "computeStationTraffic h stations trips =
     (let departures_by_id = rollup trips length start_station_id;
          arrivals_by_id = rollup trips length end_station_id
      in array_map (assign_traffic arrivals_by_id departures_by_id) h stations)"

text \<open>
  What the specification says a station's counts are: the number of trips that end,
  respectively start, at its id.
\<close>

definition arrivals_at :: "trip list \<Rightarrow> string \<Rightarrow> nat" where
  "arrivals_at trips sid = length (filter (\<lambda>t. end_station_id t = sid) trips)"

definition departures_at :: "trip list \<Rightarrow> string \<Rightarrow> nat" where
  "departures_at trips sid = length (filter (\<lambda>t. start_station_id t = sid) trips)"

definition enriched :: "trip list \<Rightarrow> station \<Rightarrow> station" where
  "enriched trips s =
     s\<lparr>arrivals := Some (arrivals_at trips (short_name s)),
       departures := Some (departures_at trips (short_name s)),
       totalTraffic := Some (arrivals_at trips (short_name s) + departures_at trips (short_name s))\<rparr>"

definition total_at :: "trip list \<Rightarrow> station \<Rightarrow> nat" where
  "total_at T s = arrivals_at T (short_name s) + departures_at T (short_name s)"

section \<open>Display mappings\<close>

text \<open>
  The scales come from the d3-scale library (not part of the repository) and are modelled
  after its implementation, with JavaScript's floating-point numbers read as real numbers.

  \<^verbatim>\<open>d3.bisectRight(a, x, lo, hi)\<close>: binary search for the position after the last
  element of the ascending array \<open>a\<close> that is at most \<open>x\<close>.
\<close>

function bisect_right :: "real list \<Rightarrow> real \<Rightarrow> nat \<Rightarrow> nat \<Rightarrow> nat" where
  "bisect_right a x lo hi =
     (if lo < hi then
        (let mid = (lo + hi) div 2
         in if a ! mid \<le> x then bisect_right a x (mid + 1) hi else bisect_right a x lo mid)
      else lo)"
  by pat_completeness auto
termination
  by (relation "measure (\<lambda>(a, x, lo, hi). hi - lo)") auto

declare bisect_right.simps [simp del]

text \<open>
  \<^verbatim>\<open>d3.scaleQuantize().domain([x0, x1]).range(rng)\<close>: with \<open>n = length rng - 1\<close>, the
  thresholds are \<open>((i + 1) * x1 - (i - n) * x0) / (n + 1)\<close> for \<open>i < n\<close>, and a value is
  sent to the range element at its \<^verbatim>\<open>bisectRight\<close> position among the thresholds.
\<close>

definition quantize_thresholds :: "real \<Rightarrow> real \<Rightarrow> nat \<Rightarrow> real list" where
  "quantize_thresholds x0 x1 n =
     map (\<lambda>i. ((real i + 1) * x1 - (real i - real n) * x0) / (real n + 1)) [0..<n]"

definition scaleQuantize :: "real \<times> real \<Rightarrow> real list \<Rightarrow> real \<Rightarrow> real" where
  "scaleQuantize dm rng x =
     (let n = length rng - 1
      in rng ! bisect_right (quantize_thresholds (fst dm) (snd dm) n) x 0 n)"

text \<open>\<^verbatim>\<open>stationFlow = d3.scaleQuantize().domain([0, 1]).range([0, 0.5, 1])\<close>.\<close>

definition stationFlow :: "real \<Rightarrow> real" where
  "stationFlow = scaleQuantize (0, 1) [0, 1 / 2, 1]"

text \<open>
  The style callback of a circle:
  \<^verbatim>\<open>ratio = d.totalTraffic === 0 ? 0 : d.departures / d.totalTraffic\<close>, then
  \<^verbatim>\<open>stationFlow(ratio)\<close>. A division that reads an absent property gives \<^verbatim>\<open>NaN\<close>,
  on which the scale returns \<^verbatim>\<open>undefined\<close>; both are \<open>None\<close> here.
\<close>

definition departure_ratio :: "station \<Rightarrow> real option" where
  "departure_ratio d =
     (let ratio =
        (if totalTraffic d = Some 0 then Some 0
         else (case (departures d, totalTraffic d) of
                 (Some dep, Some tot) \<Rightarrow> Some (real dep / real tot)
               | _ \<Rightarrow> None))
      in map_option stationFlow ratio)"

text \<open>
  \<^verbatim>\<open>d3.scaleSqrt()\<close>, a continuous scale with exponent 0.5, as configured by
  \<^verbatim>\<open>.domain([x0, x1]).range([r0, r1])\<close>. Applying it transforms the domain and the
  argument by the signed square root, normalises the argument to the transformed domain
  (a domain of width 0 normalises everything to 0.5) and interpolates in the range.
\<close>

record sqrt_scale =
  scale_domain :: "real \<times> real"
  scale_range :: "real \<times> real"

definition transformSqrt :: "real \<Rightarrow> real" where
  "transformSqrt x = (if x < 0 then - sqrt (- x) else sqrt x)"

definition normalize :: "real \<Rightarrow> real \<Rightarrow> real \<Rightarrow> real" where
  "normalize a b x = (if b - a \<noteq> 0 then (x - a) / (b - a) else 1 / 2)"

definition interpolateNumber :: "real \<Rightarrow> real \<Rightarrow> real \<Rightarrow> real" where
  "interpolateNumber a b t = a * (1 - t) + b * t"

definition scale_apply :: "sqrt_scale \<Rightarrow> real \<Rightarrow> real" where
  "scale_apply s x =
     (let d0 = transformSqrt (fst (scale_domain s));
          d1 = transformSqrt (snd (scale_domain s));
          r0 = fst (scale_range s);
          r1 = snd (scale_range s)
      in if d1 < d0 then interpolateNumber r1 r0 (normalize d1 d0 (transformSqrt x))
         else interpolateNumber r0 r1 (normalize d0 d1 (transformSqrt x)))"

text \<open>
  \<^verbatim>\<open>d3.max(values, valueof)\<close>: the largest defined value, \<^verbatim>\<open>undefined\<close> (\<open>None\<close>)
  when there is none.
\<close>

fun d3_max_from :: "nat option \<Rightarrow> nat option list \<Rightarrow> nat option" where
  "d3_max_from mx [] = mx"
| "d3_max_from mx (None # vs) = d3_max_from mx vs"
| "d3_max_from mx (Some v # vs) =
     d3_max_from (case mx of None \<Rightarrow> Some v | Some m \<Rightarrow> if m < v then Some v else Some m) vs"

definition d3_max :: "'a list \<Rightarrow> ('a \<Rightarrow> nat option) \<Rightarrow> nat option" where
  "d3_max values valueof = d3_max_from None (map valueof values)"

text \<open>\<^verbatim>\<open>x || 0\<close> on a count: \<^verbatim>\<open>undefined\<close> and \<^verbatim>\<open>0\<close> are both falsy.\<close>

definition or_zero :: "nat option \<Rightarrow> nat" where
  "or_zero x = (case x of None \<Rightarrow> 0 | Some n \<Rightarrow> if n = 0 then 0 else n)"

section \<open>The re-filter cycle\<close>

text \<open>\<^verbatim>\<open>({ ...d })\<close>: a new object with the properties of \<open>d\<close>.\<close>

definition spread :: "heap \<Rightarrow> ref \<Rightarrow> heap \<times> ref" where
  "spread h d =
     (h\<lparr>objs := (objs h)(next_ref h := objs h d), next_ref := Suc (next_ref h)\<rparr>, next_ref h)"

text \<open>
  A circle of the SVG layer: the station bound to it, its \<^verbatim>\<open>r\<close> attribute and its
  \<^verbatim>\<open>--departure-ratio\<close> style. The keyed data join leaves one circle for each datum,
  in the order of the data.
\<close>

record circle =
  datum :: ref
  attr_r :: "real option"
  style_departure_ratio :: "real option"

text \<open>
  What the closure \<^verbatim>\<open>updateScatterPlot\<close> reaches: the store, the array
  \<^verbatim>\<open>jsonData.data.stations\<close>, the loaded trips, \<^verbatim>\<open>radiusScale\<close> and \<^verbatim>\<open>circles\<close>.
\<close>

record page =
  store :: heap
  json_stations :: "ref list"
  loaded_trips :: "trip list"
  radiusScale :: sqrt_scale
  circles :: "circle list"

text \<open>\<^verbatim>\<open>updateScatterPlot(currentFilter)\<close>.\<close>

definition updateScatterPlot :: "page \<Rightarrow> number \<Rightarrow> page" where
  "updateScatterPlot pg currentFilter =
     (let filteredTrips = filterTripsByTime (loaded_trips pg) currentFilter;
          (h1, copies) = array_map spread (store pg) (json_stations pg);
          (h2, filteredStations) = computeStationTraffic h1 copies filteredTrips;
          maxTraffic = or_zero (d3_max filteredStations (\<lambda>d. totalTraffic (objs h2 d)));
          sc = (radiusScale pg)\<lparr>scale_domain := (0, real maxTraffic)\<rparr>;
          sc = (if currentFilter = Num (- 1) then sc\<lparr>scale_range := (0, 25)\<rparr>
                else sc\<lparr>scale_range := (3, 50)\<rparr>)
      in pg\<lparr>store := h2,
            radiusScale := sc,
            circles :=
              map (\<lambda>d. \<lparr>datum = d,
                        attr_r = map_option (\<lambda>t. scale_apply sc (real t)) (totalTraffic (objs h2 d)),
                        style_departure_ratio = departure_ratio (objs h2 d)\<rparr>)
                filteredStations\<rparr>)"


section \<open>Scenario data\<close>

text \<open>
  The trips of the specification's scenarios: one from 08:20 to 10:10, one from 00:00 to
  00:30, both from station A to station B.
\<close>

definition trip_morning :: trip where
  "trip_morning =
     \<lparr>start_station_id = ''A'', end_station_id = ''B'',
      started_at = Date 8 20, ended_at = Date 10 10\<rparr>"

definition trip_midnight :: trip where
  "trip_midnight =
     \<lparr>start_station_id = ''A'', end_station_id = ''B'',
      started_at = Date 0 0, ended_at = Date 0 30\<rparr>"

text \<open>
  Two stations as the stations JSON delivers them, without traffic properties, and a
  store that holds station A at reference 0 and station B at reference 1.
\<close>

definition station_A :: station where
  "station_A =
     \<lparr>short_name = ''A'', lat = 0, lon = 0,
      arrivals = None, departures = None, totalTraffic = None\<rparr>"

definition station_B :: station where
  "station_B =
     \<lparr>short_name = ''B'', lat = 1, lon = 1,
      arrivals = None, departures = None, totalTraffic = None\<rparr>"

definition heap_AB :: heap where
  "heap_AB = \<lparr>objs = (\<lambda>r. if r = 0 then station_A else station_B), next_ref = 2\<rparr>"

text \<open>
  A page whose stations array holds the two stations and whose trips are the two scenario
  trips, before any circle is drawn.
\<close>

definition page_AB :: page where
  "page_AB =
     \<lparr>store = heap_AB, json_stations = [0, 1],
      loaded_trips = [trip_morning, trip_midnight],
      radiusScale = \<lparr>scale_domain = (0, 2), scale_range = (0, 25)\<rparr>,
      circles = []\<rparr>"



section \<open>Properties of the filter\<close>

lemma within_window_iff:
  "js_le (Math_abs (js_sub (minutesSinceMidnight d) (Num c))) (Num 60) = near_center c d"
  by (cases d) (auto simp: minutesSinceMidnight_def near_center_def)

lemma filterTripsByTime_active:
  "c \<noteq> - 1 \<Longrightarrow>
   filterTripsByTime T (Num c) =
     filter (\<lambda>t. near_center c (started_at t) \<or> near_center c (ended_at t)) T"
  by (simp add: filterTripsByTime_def within_window_iff)

lemma filterTripsByTime_idem:
  "filterTripsByTime (filterTripsByTime T f) f = filterTripsByTime T f"
  by (simp add: filterTripsByTime_def)

text \<open>
  Claim C1. For an active center \<open>c\<close> (an integer from 0 to 1439) the filter returns, in
  their order, exactly the trips whose start or end time of day \<open>hour * 60 + minute\<close> is
  within 60 of \<open>c\<close> by plain absolute difference. Nothing wraps around midnight: the
  program computes the distance between time of day 0 and center 1439 as 1439, and a
  trip that starts at 00:00 and does not end near 1439 is dropped.
\<close>

theorem filterTripsByTime_window:
  assumes "0 \<le> c" and "c \<le> 1439"
  shows "filterTripsByTime T (Num c) =
           filter (\<lambda>t. near_center c (started_at t) \<or> near_center c (ended_at t)) T
       \<and> (t \<in> set (filterTripsByTime T (Num c)) \<longleftrightarrow>
            t \<in> set T \<and> (near_center c (started_at t) \<or> near_center c (ended_at t)))
       \<and> Math_abs (js_sub (minutesSinceMidnight (Date 0 0)) (Num 1439)) = Num 1439
       \<and> (c = 1439 \<and> started_at t = Date 0 0 \<and> \<not> near_center c (ended_at t)
            \<longrightarrow> t \<notin> set (filterTripsByTime T (Num c)))"
proof -
  from assms have active: "c \<noteq> - 1" by simp
  have eq: "filterTripsByTime T (Num c) =
      filter (\<lambda>t. near_center c (started_at t) \<or> near_center c (ended_at t)) T"
    by (rule filterTripsByTime_active [OF active])
  have dist: "Math_abs (js_sub (minutesSinceMidnight (Date 0 0)) (Num 1439)) = Num 1439"
    by (simp add: minutesSinceMidnight_def)
  have far: "\<not> near_center 1439 (Date 0 0)"
    by (simp add: near_center_def)
  have member: "t \<in> set (filterTripsByTime T (Num c)) \<longleftrightarrow>
      t \<in> set T \<and> (near_center c (started_at t) \<or> near_center c (ended_at t))"
    unfolding eq by simp
  have excluded: "c = 1439 \<and> started_at t = Date 0 0 \<and> \<not> near_center c (ended_at t)
      \<longrightarrow> t \<notin> set (filterTripsByTime T (Num c))"
    unfolding member using far by auto
  from eq member dist excluded show ?thesis
    by (intro conjI)
qed

text \<open>
  The scenarios of the specification: at center 600 the 08:20 to 10:10 trip is kept and
  the 00:00 to 00:30 trip is dropped; at center 1439 the midnight trip is dropped too.
\<close>

theorem filterTripsByTime_window_witness:
  "(0::int) \<le> 600 \<and> (600::int) \<le> 1439
   \<and> filterTripsByTime [trip_morning, trip_midnight] (Num 600) = [trip_morning]
   \<and> (0::int) \<le> 1439 \<and> (1439::int) \<le> 1439
   \<and> started_at trip_midnight = Date 0 0
   \<and> \<not> near_center 1439 (ended_at trip_midnight)
   \<and> trip_midnight \<notin> set (filterTripsByTime [trip_morning, trip_midnight] (Num 1439))"
  using filterTripsByTime_window [of 600 "[trip_morning, trip_midnight]"]
    filterTripsByTime_window [of 1439 "[trip_morning, trip_midnight]" trip_midnight]
  by (simp add: near_center_def trip_morning_def trip_midnight_def)

text \<open>
  Claim C4. With the inactive sentinel \<open>-1\<close> as center the filter returns its input
  unchanged: the same list, hence the same set of trips.
\<close>

theorem filterTripsByTime_inactive:
  "filterTripsByTime T (Num (- 1)) = T \<and> set (filterTripsByTime T (Num (- 1))) = set T"
  by (simp add: filterTripsByTime_def)

text \<open>
  Claim C5, as stated: there are a trip list and an active center at which filtering the
  filter's own output again changes it. There are none.
\<close>

theorem filterTripsByTime_refilter_counterexample:
  "\<not> (\<exists>T c. 0 \<le> c \<and> c \<le> 1439 \<and>
        filterTripsByTime (filterTripsByTime T (Num c)) (Num c) \<noteq> filterTripsByTime T (Num c))"
  by (simp add: filterTripsByTime_idem)

text \<open>
  Claim C5, amended. For every trip list and every active center the filter is
  idempotent, every trip of the result is a trip of the input (subset), and every trip of
  the input whose start or end is within 60 of the center is in the result (completeness).
\<close>

theorem filterTripsByTime_idempotent_subset_complete:
  assumes "0 \<le> c" and "c \<le> 1439"
  shows "filterTripsByTime (filterTripsByTime T (Num c)) (Num c) = filterTripsByTime T (Num c)
       \<and> set (filterTripsByTime T (Num c)) \<subseteq> set T
       \<and> (\<forall>t \<in> set T. near_center c (started_at t) \<or> near_center c (ended_at t)
             \<longrightarrow> t \<in> set (filterTripsByTime T (Num c)))"
proof -
  from assms have active: "c \<noteq> - 1" by simp
  show ?thesis
    by (simp add: filterTripsByTime_idem filterTripsByTime_active [OF active])
qed

theorem filterTripsByTime_idempotent_subset_complete_witness:
  "(0::int) \<le> 600 \<and> (600::int) \<le> 1439
   \<and> filterTripsByTime (filterTripsByTime [trip_midnight, trip_morning] (Num 600)) (Num 600) =
       filterTripsByTime [trip_midnight, trip_morning] (Num 600)
   \<and> set (filterTripsByTime [trip_midnight, trip_morning] (Num 600)) \<subseteq>
       set [trip_midnight, trip_morning]
   \<and> near_center 600 (ended_at trip_morning)
   \<and> trip_morning \<in> set (filterTripsByTime [trip_midnight, trip_morning] (Num 600))"
  using filterTripsByTime_idempotent_subset_complete [of 600 "[trip_midnight, trip_morning]"]
  by (simp add: near_center_def trip_morning_def)

section \<open>Properties of the aggregator\<close>

lemma group_into_lookup:
  "group_into groups key vs k =
     (case groups k of
        Some g \<Rightarrow> Some (g @ filter (\<lambda>v. key v = k) vs)
      | None \<Rightarrow> (if k \<in> key ` set vs then Some (filter (\<lambda>v. key v = k) vs) else None))"
proof (induction vs arbitrary: groups)
  case Nil
  show ?case by (simp split: option.splits)
next
  case (Cons v vs)
  show ?case
    by (auto simp: Cons.IH split: option.splits)
qed

lemma rollup_length_lookup:
  "nullish_zero (rollup vs length key k) = length (filter (\<lambda>v. key v = k) vs)"
  by (auto simp: rollup_def nullish_zero_def group_into_lookup filter_empty_conv
           split: option.splits)

lemma nullish_zero_Some: "nullish_zero (Some n) = n"
  by (simp add: nullish_zero_def)

lemma assign_traffic_eq:
  "assign_traffic (rollup T length end_station_id) (rollup T length start_station_id) h r =
     (h\<lparr>objs := (objs h)(r := enriched T (objs h r))\<rparr>, r)"
  by (simp add: assign_traffic_def enriched_def Let_def rollup_length_lookup
        arrivals_at_def departures_at_def nullish_zero_Some)

lemma enriched_idem: "enriched T (enriched T s) = enriched T s"
  by (simp add: enriched_def)

lemma array_map_enriched:
  "array_map (assign_traffic (rollup T length end_station_id)
                (rollup T length start_station_id)) h rs =
     (h\<lparr>objs := (\<lambda>r. if r \<in> set rs then enriched T (objs h r) else objs h r)\<rparr>, rs)"
proof (induction rs arbitrary: h)
  case Nil
  show ?case by simp
next
  case (Cons r rs)
  let ?f = "assign_traffic (rollup T length end_station_id)
              (rollup T length start_station_id)"
  let ?h1 = "h\<lparr>objs := (objs h)(r := enriched T (objs h r))\<rparr>"
  have first: "?f h r = (?h1, r)"
    by (rule assign_traffic_eq)
  have rest: "array_map ?f ?h1 rs =
      (?h1\<lparr>objs := (\<lambda>x. if x \<in> set rs then enriched T (objs ?h1 x) else objs ?h1 x)\<rparr>, rs)"
    by (rule Cons.IH)
  have same: "(\<lambda>x. if x \<in> set rs then enriched T (objs ?h1 x) else objs ?h1 x) =
        (\<lambda>x. if x \<in> set (r # rs) then enriched T (objs h x) else objs h x)"
    by (rule ext) (simp add: enriched_idem)
  have "array_map ?f h (r # rs) =
      (?h1\<lparr>objs := (\<lambda>x. if x \<in> set rs then enriched T (objs ?h1 x) else objs ?h1 x)\<rparr>, r # rs)"
    by (simp only: array_map.simps first rest prod.case)
  also have "\<dots> = (h\<lparr>objs := (\<lambda>x. if x \<in> set (r # rs) then enriched T (objs h x)
                                   else objs h x)\<rparr>, r # rs)"
    by (simp only: same) simp
  finally show ?case .
qed

lemma computeStationTraffic_eq:
  "computeStationTraffic h S T =
     (h\<lparr>objs := (\<lambda>r. if r \<in> set S then enriched T (objs h r) else objs h r)\<rparr>, S)"
  by (simp add: computeStationTraffic_def Let_def array_map_enriched)

lemma objs_computeStationTraffic:
  "objs (fst (computeStationTraffic h S T)) r =
     (if r \<in> set S then enriched T (objs h r) else objs h r)"
  by (simp add: computeStationTraffic_eq)

lemma snd_computeStationTraffic: "snd (computeStationTraffic h S T) = S"
  by (simp add: computeStationTraffic_eq)

lemma next_ref_computeStationTraffic:
  "next_ref (fst (computeStationTraffic h S T)) = next_ref h"
  by (simp add: computeStationTraffic_eq)

lemma departures_at_insert:
  "start_station_id t \<noteq> sid \<Longrightarrow> departures_at (T1 @ t # T2) sid = departures_at (T1 @ T2) sid"
  by (simp add: departures_at_def)

lemma arrivals_at_insert:
  "end_station_id t \<noteq> sid \<Longrightarrow> arrivals_at (T1 @ t # T2) sid = arrivals_at (T1 @ T2) sid"
  by (simp add: arrivals_at_def)





lemma array_map_spread:
  "\<forall>r \<in> set S. r < next_ref h \<Longrightarrow>
   array_map spread h S =
     (h\<lparr>objs := (\<lambda>r. if next_ref h \<le> r \<and> r < next_ref h + length S
                       then objs h (S ! (r - next_ref h)) else objs h r),
        next_ref := next_ref h + length S\<rparr>,
      [next_ref h ..< next_ref h + length S])"
proof (induction S arbitrary: h)
  case Nil
  have "(\<lambda>r. if next_ref h \<le> r \<and> r < next_ref h + length ([] :: ref list)
             then objs h ([] ! (r - next_ref h)) else objs h r) = objs h"
    by (rule ext) auto
  then show ?case by simp
next
  case (Cons d ds)
  let ?n = "next_ref h"
  let ?h1 = "h\<lparr>objs := (objs h)(?n := objs h d), next_ref := Suc ?n\<rparr>"
  have first: "spread h d = (?h1, ?n)"
    by (simp add: spread_def)
  from Cons.prems have below: "\<forall>r \<in> set ds. r < next_ref ?h1" and d: "d < ?n"
    by auto
  note rest = Cons.IH [OF below]
  have same: "(\<lambda>r. if next_ref ?h1 \<le> r \<and> r < next_ref ?h1 + length ds
                    then objs ?h1 (ds ! (r - next_ref ?h1)) else objs ?h1 r) =
      (\<lambda>r. if ?n \<le> r \<and> r < ?n + length (d # ds)
            then objs h ((d # ds) ! (r - ?n)) else objs h r)"
  proof (rule ext)
    fix r
    show "(if next_ref ?h1 \<le> r \<and> r < next_ref ?h1 + length ds
           then objs ?h1 (ds ! (r - next_ref ?h1)) else objs ?h1 r) =
          (if ?n \<le> r \<and> r < ?n + length (d # ds)
           then objs h ((d # ds) ! (r - ?n)) else objs h r)"
    proof (cases "Suc ?n \<le> r \<and> r < Suc ?n + length ds")
      case True
      then have idx: "r - ?n = Suc (r - Suc ?n)" and in_ds: "r - Suc ?n < length ds"
        by auto
      from in_ds Cons.prems have "ds ! (r - Suc ?n) < ?n"
        by (auto simp: all_set_conv_all_nth)
      with True idx show ?thesis by simp
    next
      case False
      then show ?thesis by auto
    qed
  qed
  have "array_map spread h (d # ds) =
      (?h1\<lparr>objs := (\<lambda>r. if next_ref ?h1 \<le> r \<and> r < next_ref ?h1 + length ds
                       then objs ?h1 (ds ! (r - next_ref ?h1)) else objs ?h1 r),
           next_ref := next_ref ?h1 + length ds\<rparr>,
       ?n # [next_ref ?h1 ..< next_ref ?h1 + length ds])"
    by (simp only: array_map.simps first rest prod.case)
  also have "\<dots> = (h\<lparr>objs := (\<lambda>r. if ?n \<le> r \<and> r < ?n + length (d # ds)
                       then objs h ((d # ds) ! (r - ?n)) else objs h r),
           next_ref := ?n + length (d # ds)\<rparr>,
       [?n ..< ?n + length (d # ds)])"
  proof -
    have "[?n ..< ?n + length (d # ds)] = ?n # [Suc ?n ..< Suc ?n + length ds]"
      by (subst upt_rec) simp
    then show ?thesis
      by (simp only: same) simp
  qed
  finally show ?case .
qed

text \<open>
  Claim C2. Every station record in the output of \<^verbatim>\<open>computeStationTraffic\<close> has all
  three traffic properties, and its \<open>totalTraffic\<close> is the sum of its \<open>arrivals\<close> and its
  \<open>departures\<close>.
\<close>

theorem computeStationTraffic_totalTraffic:
  "\<forall>r \<in> set (snd (computeStationTraffic h S T)).
     \<exists>a d. arrivals (objs (fst (computeStationTraffic h S T)) r) = Some a
         \<and> departures (objs (fst (computeStationTraffic h S T)) r) = Some d
         \<and> totalTraffic (objs (fst (computeStationTraffic h S T)) r) = Some (a + d)"
  by (simp add: objs_computeStationTraffic snd_computeStationTraffic enriched_def)

theorem computeStationTraffic_totalTraffic_witness:
  "0 \<in> set (snd (computeStationTraffic heap_AB [0, 1] [trip_morning]))
   \<and> arrivals (objs (fst (computeStationTraffic heap_AB [0, 1] [trip_morning])) 0) = Some 0
   \<and> departures (objs (fst (computeStationTraffic heap_AB [0, 1] [trip_morning])) 0) = Some 1
   \<and> totalTraffic (objs (fst (computeStationTraffic heap_AB [0, 1] [trip_morning])) 0) = Some 1"
  using computeStationTraffic_totalTraffic [of heap_AB "[0, 1]" "[trip_morning]"]
  by (simp add: objs_computeStationTraffic snd_computeStationTraffic enriched_def
        arrivals_at_def departures_at_def heap_AB_def station_A_def trip_morning_def)

text \<open>
  Claim C9. The output array lists the stations in the order of the input array: it has
  the same length, and its i-th element is the i-th input station enriched with the
  counts of the trips at its id.
\<close>

theorem computeStationTraffic_order:
  "snd (computeStationTraffic h S T) = S
   \<and> length (snd (computeStationTraffic h S T)) = length S
   \<and> (\<forall>i < length S.
        objs (fst (computeStationTraffic h S T)) (snd (computeStationTraffic h S T) ! i) =
          enriched T (objs h (S ! i)))"
  by (simp add: objs_computeStationTraffic snd_computeStationTraffic)

theorem computeStationTraffic_order_witness:
  "snd (computeStationTraffic heap_AB [1, 0] [trip_morning]) = [1, 0]
   \<and> (0::nat) < length [1, 0 :: ref]
   \<and> objs (fst (computeStationTraffic heap_AB [1, 0] [trip_morning]))
        (snd (computeStationTraffic heap_AB [1, 0] [trip_morning]) ! 0) =
      station_B\<lparr>arrivals := Some 1, departures := Some 0, totalTraffic := Some 1\<rparr>"
  using computeStationTraffic_order [of heap_AB "[1, 0]" "[trip_morning]"]
  by (simp add: objs_computeStationTraffic snd_computeStationTraffic enriched_def
        arrivals_at_def departures_at_def heap_AB_def station_B_def trip_morning_def)

text \<open>
  Claim C6. A trip whose start station id is the id of no station of the array changes no
  station's departures, wherever it stands in the trip list, and likewise for the end
  station id and the arrivals. With no trips every station of the array gets arrivals,
  departures and totalTraffic 0, and an empty station array gives an empty array and
  leaves the store as it is. The aggregator has no failing branch: a missing lookup is
  read as 0.
\<close>

theorem computeStationTraffic_unmatched_empty:
  "(start_station_id t \<notin> set (map (\<lambda>r. short_name (objs h r)) S) \<longrightarrow>
      (\<forall>r \<in> set S. departures (objs (fst (computeStationTraffic h S (T1 @ t # T2))) r) =
                    departures (objs (fst (computeStationTraffic h S (T1 @ T2))) r)))
   \<and> (end_station_id t \<notin> set (map (\<lambda>r. short_name (objs h r)) S) \<longrightarrow>
      (\<forall>r \<in> set S. arrivals (objs (fst (computeStationTraffic h S (T1 @ t # T2))) r) =
                    arrivals (objs (fst (computeStationTraffic h S (T1 @ T2))) r)))
   \<and> snd (computeStationTraffic h S []) = S
   \<and> (\<forall>r \<in> set S. objs (fst (computeStationTraffic h S [])) r =
        (objs h r)\<lparr>arrivals := Some 0, departures := Some 0, totalTraffic := Some 0\<rparr>)
   \<and> computeStationTraffic h [] T = (h, [])"
proof (intro conjI impI ballI)
  fix r
  assume "start_station_id t \<notin> set (map (\<lambda>r. short_name (objs h r)) S)" and "r \<in> set S"
  then have "start_station_id t \<noteq> short_name (objs h r)" by auto
  then show "departures (objs (fst (computeStationTraffic h S (T1 @ t # T2))) r) =
      departures (objs (fst (computeStationTraffic h S (T1 @ T2))) r)"
    by (simp add: objs_computeStationTraffic enriched_def departures_at_insert)
next
  fix r
  assume "end_station_id t \<notin> set (map (\<lambda>r. short_name (objs h r)) S)" and "r \<in> set S"
  then have "end_station_id t \<noteq> short_name (objs h r)" by auto
  then show "arrivals (objs (fst (computeStationTraffic h S (T1 @ t # T2))) r) =
      arrivals (objs (fst (computeStationTraffic h S (T1 @ T2))) r)"
    by (simp add: objs_computeStationTraffic enriched_def arrivals_at_insert)
next
  show "snd (computeStationTraffic h S []) = S"
    by (rule snd_computeStationTraffic)
next
  fix r
  assume "r \<in> set S"
  then show "objs (fst (computeStationTraffic h S [])) r =
      (objs h r)\<lparr>arrivals := Some 0, departures := Some 0, totalTraffic := Some 0\<rparr>"
    by (simp add: objs_computeStationTraffic enriched_def arrivals_at_def departures_at_def)
next
  show "computeStationTraffic h [] T = (h, [])"
    by (simp add: computeStationTraffic_def)
qed

theorem computeStationTraffic_unmatched_empty_witness:
  "end_station_id trip_morning \<notin> set (map (\<lambda>r. short_name (objs heap_AB r)) [0])
   \<and> 0 \<in> set [0 :: ref]
   \<and> arrivals (objs (fst (computeStationTraffic heap_AB [0] ([trip_midnight] @ trip_morning # []))) 0) =
       arrivals (objs (fst (computeStationTraffic heap_AB [0] ([trip_midnight] @ []))) 0)
   \<and> arrivals (objs (fst (computeStationTraffic heap_AB [0] [trip_midnight, trip_morning])) 0) = Some 0
   \<and> departures (objs (fst (computeStationTraffic heap_AB [0] [trip_midnight, trip_morning])) 0) = Some 2
   \<and> start_station_id trip_morning \<notin> set (map (\<lambda>r. short_name (objs heap_AB r)) [1])
   \<and> 1 \<in> set [1 :: ref]
   \<and> departures (objs (fst (computeStationTraffic heap_AB [1] ([] @ trip_morning # []))) 1) =
       departures (objs (fst (computeStationTraffic heap_AB [1] ([] @ []))) 1)
   \<and> departures (objs (fst (computeStationTraffic heap_AB [1] [trip_morning])) 1) = Some 0
   \<and> arrivals (objs (fst (computeStationTraffic heap_AB [1] [trip_morning])) 1) = Some 1
   \<and> objs (fst (computeStationTraffic heap_AB [0] [])) 0 =
       station_A\<lparr>arrivals := Some 0, departures := Some 0, totalTraffic := Some 0\<rparr>
   \<and> computeStationTraffic heap_AB [] [trip_morning] = (heap_AB, [])"
  using computeStationTraffic_unmatched_empty
      [of trip_morning heap_AB "[0]" "[trip_midnight]" "[]" "[trip_morning]"]
    computeStationTraffic_unmatched_empty
      [of trip_morning heap_AB "[1]" "[]" "[]" "[trip_morning]"]
  by (simp add: objs_computeStationTraffic enriched_def arrivals_at_def departures_at_def
        heap_AB_def station_A_def station_B_def trip_morning_def trip_midnight_def)



section \<open>Properties of the display mappings\<close>

lemma bisect_right_done: "bisect_right a x lo lo = lo"
  by (subst bisect_right.simps) simp

lemma bisect_thirds:
  "bisect_right [1 / 3, 2 / 3] x 0 (Suc (Suc 0)) =
     (if x < 1 / 3 then 0 else if x < 2 / 3 then Suc 0 else Suc (Suc 0))"
proof -
  have left: "bisect_right [1 / 3, 2 / 3] x 0 (Suc 0) = (if 1 / 3 \<le> x then Suc 0 else 0)"
    by (subst bisect_right.simps) (simp add: bisect_right_done)
  have "bisect_right [1 / 3, 2 / 3] x 0 (Suc (Suc 0)) =
      (if 2 / 3 \<le> x then Suc (Suc 0) else if 1 / 3 \<le> x then Suc 0 else 0)"
    by (subst bisect_right.simps) (simp add: bisect_right_done left)
  then show ?thesis by auto
qed

lemma thresholds_thirds: "quantize_thresholds 0 1 (Suc (Suc 0)) = [1 / 3, 2 / 3]"
  by (simp add: quantize_thresholds_def)

lemma stationFlow_eq:
  "stationFlow x = (if x < 1 / 3 then 0 else if x < 2 / 3 then 1 / 2 else 1)"
proof -
  have "stationFlow x =
      [0, 1 / 2, 1] ! bisect_right (quantize_thresholds 0 1 (Suc (Suc 0))) x 0 (Suc (Suc 0))"
    by (simp add: stationFlow_def scaleQuantize_def)
  also have "\<dots> = (if x < 1 / 3 then 0 else if x < 2 / 3 then 1 / 2 else 1)"
    by (simp only: thresholds_thirds bisect_thirds) simp
  finally show ?thesis .
qed

text \<open>
  Claim C7. For a station with its traffic properties set, the flow ratio is departures
  over totalTraffic, taken as 0 when totalTraffic is 0, and the style value is its bucket:
  0 below 1/3, 0.5 from 1/3 up to but not including 2/3, and 1 from 2/3 on. The scale
  takes no other value, and 1/3 itself goes to 0.5.
\<close>

theorem departure_ratio_buckets:
  assumes "totalTraffic d = Some tot" and "departures d = Some dep"
  shows "departure_ratio d =
           Some (let ratio = (if tot = 0 then 0 else real dep / real tot)
                 in if ratio < 1 / 3 then 0 else if ratio < 2 / 3 then 1 / 2 else 1)
       \<and> stationFlow x = (if x < 1 / 3 then 0 else if x < 2 / 3 then 1 / 2 else 1)
       \<and> stationFlow x \<in> {0, 1 / 2, 1}
       \<and> stationFlow (1 / 3) = 1 / 2"
  using assms by (auto simp: departure_ratio_def stationFlow_eq Let_def)

theorem departure_ratio_buckets_witness:
  "totalTraffic (station_A\<lparr>arrivals := Some 2, departures := Some 1, totalTraffic := Some 3\<rparr>) = Some 3
   \<and> departures (station_A\<lparr>arrivals := Some 2, departures := Some 1, totalTraffic := Some 3\<rparr>) = Some 1
   \<and> departure_ratio (station_A\<lparr>arrivals := Some 2, departures := Some 1, totalTraffic := Some 3\<rparr>)
       = Some (1 / 2)
   \<and> stationFlow 0 = 0 \<and> stationFlow (1 / 2) = 1 / 2 \<and> stationFlow 1 = 1"
  using departure_ratio_buckets
      [of "station_A\<lparr>arrivals := Some 2, departures := Some 1, totalTraffic := Some 3\<rparr>" 3 1 0]
    departure_ratio_buckets
      [of "station_A\<lparr>arrivals := Some 2, departures := Some 1, totalTraffic := Some 3\<rparr>" 3 1 "1 / 2"]
    departure_ratio_buckets
      [of "station_A\<lparr>arrivals := Some 2, departures := Some 1, totalTraffic := Some 3\<rparr>" 3 1 1]
  by (simp add: station_A_def)

section \<open>Properties of the re-filter cycle\<close>

lemma d3_max_from_fold:
  "d3_max_from (Some m) (map Some xs) = Some (fold max xs m)"
proof (induction xs arbitrary: m)
  case Nil
  show ?case by simp
next
  case (Cons x xs)
  have "(if m < x then Some x else Some m) = Some (max x m)"
    by (simp add: max_def)
  then show ?case
    by (simp add: Cons.IH)
qed

lemma d3_max_from_Some:
  "d3_max_from None (map Some xs) = (if xs = [] then None else Some (Max (set xs)))"
proof (cases xs)
  case Nil
  then show ?thesis by simp
next
  case (Cons x ys)
  then show ?thesis
    by (simp add: d3_max_from_fold Max.set_eq_fold del: set_simps)
qed

lemma map_shifted_nth:
  "map (\<lambda>d. f (S ! (d - n))) [n ..< n + length S] = map f S"
proof -
  have "[n ..< n + length S] = map (\<lambda>i. i + n) [0 ..< length S]"
    by (simp add: map_add_upt add.commute)
  then have "map (\<lambda>d. f (S ! (d - n))) [n ..< n + length S] =
      map f (map ((!) S) [0 ..< length S])"
    by (simp add: comp_def)
  then show ?thesis
    by (simp only: map_nth)
qed

lemma updateScatterPlot_eq:
  fixes pg :: page and f :: number
  assumes wf: "\<forall>r \<in> set (json_stations pg). r < next_ref (store pg)"
  defines "n \<equiv> next_ref (store pg)"
    and "S \<equiv> json_stations pg"
    and "FT \<equiv> filterTripsByTime (loaded_trips pg) f"
  defines "h2 \<equiv> (store pg)\<lparr>objs := (\<lambda>r. if n \<le> r \<and> r < n + length S
                                        then enriched FT (objs (store pg) (S ! (r - n)))
                                        else objs (store pg) r),
                          next_ref := n + length S\<rparr>"
    and "sc \<equiv> \<lparr>scale_domain =
                 (0, real (if S = [] then 0
                           else Max (set (map (\<lambda>r. total_at FT (objs (store pg) r)) S)))),
               scale_range = (if f = Num (- 1) then (0, 25) else (3, 50))\<rparr>"
  shows "updateScatterPlot pg f =
     pg\<lparr>store := h2, radiusScale := sc,
        circles := map (\<lambda>d. \<lparr>datum = d,
                     attr_r = map_option (\<lambda>t. scale_apply sc (real t)) (totalTraffic (objs h2 d)),
                     style_departure_ratio = departure_ratio (objs h2 d)\<rparr>) [n ..< n + length S]\<rparr>"
proof -
  let ?h1 = "(store pg)\<lparr>objs := (\<lambda>r. if n \<le> r \<and> r < n + length S
                                     then objs (store pg) (S ! (r - n)) else objs (store pg) r),
                        next_ref := n + length S\<rparr>"
  have sp: "array_map spread (store pg) (json_stations pg) = (?h1, [n ..< n + length S])"
    unfolding n_def S_def by (rule array_map_spread [OF wf])
  have "(\<lambda>r. if r \<in> set [n ..< n + length S] then enriched FT (objs ?h1 r) else objs ?h1 r) =
      (\<lambda>r. if n \<le> r \<and> r < n + length S
            then enriched FT (objs (store pg) (S ! (r - n))) else objs (store pg) r)"
    by (rule ext) simp
  then have cst: "computeStationTraffic ?h1 [n ..< n + length S] FT = (h2, [n ..< n + length S])"
    by (simp add: computeStationTraffic_eq h2_def)
  have "map (\<lambda>d. totalTraffic (objs h2 d)) [n ..< n + length S] =
      map (\<lambda>d. Some (total_at FT (objs (store pg) (S ! (d - n))))) [n ..< n + length S]"
    by (rule map_cong) (simp_all add: h2_def enriched_def total_at_def)
  also have "\<dots> = map Some (map (\<lambda>r. total_at FT (objs (store pg) r)) S)"
    by (simp add: map_shifted_nth [where f = "\<lambda>r. Some (total_at FT (objs (store pg) r))"] comp_def)
  finally have mx: "or_zero (d3_max [n ..< n + length S] (\<lambda>d. totalTraffic (objs h2 d))) =
      (if S = [] then 0 else Max (set (map (\<lambda>r. total_at FT (objs (store pg) r)) S)))"
    by (simp add: d3_max_def d3_max_from_Some or_zero_def del: map_map)
  have scale: "s\<lparr>scale_domain := a, scale_range := b\<rparr> =
      \<lparr>scale_domain = a, scale_range = b\<rparr>" for s :: sqrt_scale and a b
    by (cases s) simp
  show ?thesis
    unfolding updateScatterPlot_def Let_def sp prod.case FT_def [symmetric] cst mx
    by (simp add: sc_def scale)
qed

lemma store_updateScatterPlot:
  assumes "\<forall>r \<in> set (json_stations pg). r < next_ref (store pg)"
  shows "objs (store (updateScatterPlot pg f)) r =
     (if next_ref (store pg) \<le> r \<and> r < next_ref (store pg) + length (json_stations pg)
      then enriched (filterTripsByTime (loaded_trips pg) f)
             (objs (store pg) (json_stations pg ! (r - next_ref (store pg))))
      else objs (store pg) r)"
  by (simp add: updateScatterPlot_eq [OF assms])

lemma datum_updateScatterPlot:
  assumes "\<forall>r \<in> set (json_stations pg). r < next_ref (store pg)"
  shows "map datum (circles (updateScatterPlot pg f)) =
     [next_ref (store pg) ..< next_ref (store pg) + length (json_stations pg)]"
  by (simp add: updateScatterPlot_eq [OF assms] comp_def)

lemma records_updateScatterPlot:
  assumes "\<forall>r \<in> set (json_stations pg). r < next_ref (store pg)"
  shows "map (\<lambda>c. objs (store (updateScatterPlot pg f)) (datum c)) (circles (updateScatterPlot pg f)) =
     map (\<lambda>r. enriched (filterTripsByTime (loaded_trips pg) f) (objs (store pg) r)) (json_stations pg)"
proof -
  let ?n = "next_ref (store pg)" and ?S = "json_stations pg"
  let ?FT = "filterTripsByTime (loaded_trips pg) f"
  have "map (\<lambda>c. objs (store (updateScatterPlot pg f)) (datum c)) (circles (updateScatterPlot pg f)) =
      map (objs (store (updateScatterPlot pg f))) (map datum (circles (updateScatterPlot pg f)))"
    by (simp add: comp_def)
  also have "\<dots> = map (objs (store (updateScatterPlot pg f))) [?n ..< ?n + length ?S]"
    by (simp only: datum_updateScatterPlot [OF assms])
  also have "\<dots> = map (\<lambda>d. enriched ?FT (objs (store pg) (?S ! (d - ?n)))) [?n ..< ?n + length ?S]"
    by (rule map_cong) (simp_all add: store_updateScatterPlot [OF assms])
  also have "\<dots> = map (\<lambda>r. enriched ?FT (objs (store pg) r)) ?S"
    by (rule map_shifted_nth)
  finally show ?thesis .
qed






lemma wf_page_AB: "\<forall>r \<in> set (json_stations page_AB). r < next_ref (store page_AB)"
  by (simp add: page_AB_def heap_AB_def)

lemma filtered_trips_page_AB:
  "filterTripsByTime (loaded_trips page_AB) (Num 600) = [trip_morning]"
  by (simp add: page_AB_def filterTripsByTime_def minutesSinceMidnight_def
        trip_morning_def trip_midnight_def)

lemma enriched_overwrites: "enriched T (enriched T0 s) = enriched T s"
  by (simp add: enriched_def)

lemma computeStationTraffic_twice:
  "fst (computeStationTraffic (fst (computeStationTraffic h S T0)) S T) =
     fst (computeStationTraffic h S T)"
proof (rule heap.equality)
  show "objs (fst (computeStationTraffic (fst (computeStationTraffic h S T0)) S T)) =
      objs (fst (computeStationTraffic h S T))"
    by (rule ext) (simp add: objs_computeStationTraffic enriched_overwrites)
  show "next_ref (fst (computeStationTraffic (fst (computeStationTraffic h S T0)) S T)) =
      next_ref (fst (computeStationTraffic h S T))"
    by (simp add: computeStationTraffic_eq)
  show "heap.more (fst (computeStationTraffic (fst (computeStationTraffic h S T0)) S T)) =
      heap.more (fst (computeStationTraffic h S T))"
    by simp
qed



text \<open>
  Claim C3, as stated: the aggregator returns independent copies and leaves the input
  records as they were. On the store with station A at reference 0 it returns the very
  reference it was given, and the record behind it has changed: its departures were
  absent before the call and are 1 after it.
\<close>

theorem computeStationTraffic_mutates_counterexample:
  "objs (fst (computeStationTraffic heap_AB [0] [trip_morning])) 0 \<noteq> objs heap_AB 0
   \<and> departures (objs heap_AB 0) = None
   \<and> departures (objs (fst (computeStationTraffic heap_AB [0] [trip_morning])) 0) = Some 1
   \<and> snd (computeStationTraffic heap_AB [0] [trip_morning]) = [0]"
  by (simp add: objs_computeStationTraffic snd_computeStationTraffic enriched_def
        departures_at_def heap_AB_def station_A_def trip_morning_def)

text \<open>
  Claim C3, amended. The aggregator enriches in place: it returns the references it was
  given, in their order; on each record of the array it overwrites exactly arrivals,
  departures and totalTraffic with the counts of the given trips at the record's id, and
  it changes no other record. The values written do not depend on what the three
  properties held before, so an earlier call leaves no trace. Independence comes from
  the caller: the re-filter cycle aggregates over fresh copies, so it leaves the stations
  array and every record that existed before as they were, and the records bound to the
  circles are new ones, equal to the original records enriched with the counts of the
  currently filtered trips.
\<close>

theorem computeStationTraffic_in_place:
  assumes wf: "\<forall>r \<in> set (json_stations pg). r < next_ref (store pg)"
  shows "snd (computeStationTraffic h S T) = S
       \<and> (r \<in> set S \<longrightarrow>
            objs (fst (computeStationTraffic h S T)) r =
              (objs h r)\<lparr>arrivals := Some (arrivals_at T (short_name (objs h r))),
                         departures := Some (departures_at T (short_name (objs h r))),
                         totalTraffic := Some (arrivals_at T (short_name (objs h r)) +
                                               departures_at T (short_name (objs h r)))\<rparr>)
       \<and> (r \<notin> set S \<longrightarrow> objs (fst (computeStationTraffic h S T)) r = objs h r)
       \<and> fst (computeStationTraffic (fst (computeStationTraffic h S T0)) S T) =
           fst (computeStationTraffic h S T)
       \<and> (let pg' = updateScatterPlot pg f
          in json_stations pg' = json_stations pg
           \<and> (\<forall>r < next_ref (store pg). objs (store pg') r = objs (store pg) r)
           \<and> (\<forall>c \<in> set (circles pg'). next_ref (store pg) \<le> datum c)
           \<and> map (\<lambda>c. objs (store pg') (datum c)) (circles pg') =
               map (\<lambda>r. enriched (filterTripsByTime (loaded_trips pg) f) (objs (store pg) r))
                 (json_stations pg))"
proof -
  let ?pg' = "updateScatterPlot pg f"
  have refs: "snd (computeStationTraffic h S T) = S"
    by (rule snd_computeStationTraffic)
  have listed: "r \<in> set S \<longrightarrow>
      objs (fst (computeStationTraffic h S T)) r =
        (objs h r)\<lparr>arrivals := Some (arrivals_at T (short_name (objs h r))),
                   departures := Some (departures_at T (short_name (objs h r))),
                   totalTraffic := Some (arrivals_at T (short_name (objs h r)) +
                                         departures_at T (short_name (objs h r)))\<rparr>"
    by (simp add: objs_computeStationTraffic enriched_def)
  have others: "r \<notin> set S \<longrightarrow> objs (fst (computeStationTraffic h S T)) r = objs h r"
    by (simp add: objs_computeStationTraffic)
  note twice = computeStationTraffic_twice [of h S T0 T]
  have json: "json_stations ?pg' = json_stations pg"
    by (simp add: updateScatterPlot_eq [OF wf])
  have old: "\<forall>r < next_ref (store pg). objs (store ?pg') r = objs (store pg) r"
    by (simp add: store_updateScatterPlot [OF wf])
  have "\<forall>d \<in> set (map datum (circles ?pg')). next_ref (store pg) \<le> d"
    by (simp only: datum_updateScatterPlot [OF wf]) simp
  then have fresh: "\<forall>c \<in> set (circles ?pg'). next_ref (store pg) \<le> datum c"
    by simp
  note recs = records_updateScatterPlot [OF wf, of f]
  from refs listed others twice json old fresh recs show ?thesis
    unfolding Let_def by (intro conjI)
qed

theorem computeStationTraffic_in_place_witness:
  "list_all (\<lambda>r. r < next_ref (store page_AB)) (json_stations page_AB)
   \<and> snd (computeStationTraffic heap_AB [0] [trip_morning]) = [0]
   \<and> objs (fst (computeStationTraffic heap_AB [0] [trip_morning])) 0 =
       station_A\<lparr>arrivals := Some 0, departures := Some 1, totalTraffic := Some 1\<rparr>
   \<and> objs (fst (computeStationTraffic heap_AB [0] [trip_morning])) 1 = station_B
   \<and> fst (computeStationTraffic (fst (computeStationTraffic heap_AB [0] [trip_midnight]))
         [0] [trip_morning]) =
       fst (computeStationTraffic heap_AB [0] [trip_morning])
   \<and> objs (store (updateScatterPlot page_AB (Num 600))) 0 = station_A
   \<and> objs (store (updateScatterPlot page_AB (Num 600))) 1 = station_B
   \<and> map datum (circles (updateScatterPlot page_AB (Num 600))) = [2, 3]
   \<and> map (\<lambda>c. objs (store (updateScatterPlot page_AB (Num 600))) (datum c))
        (circles (updateScatterPlot page_AB (Num 600))) =
       [station_A\<lparr>arrivals := Some 0, departures := Some 1, totalTraffic := Some 1\<rparr>,
        station_B\<lparr>arrivals := Some 1, departures := Some 0, totalTraffic := Some 1\<rparr>]"
proof -
  note inst0 = computeStationTraffic_in_place
    [OF wf_page_AB, of heap_AB "[0]" "[trip_morning]" 0 "[trip_midnight]" "Num 600"]
  note inst1 = computeStationTraffic_in_place
    [OF wf_page_AB, of heap_AB "[0]" "[trip_morning]" 1 "[trip_midnight]" "Num 600"]
  have wf: "list_all (\<lambda>r. r < next_ref (store page_AB)) (json_stations page_AB)"
    using wf_page_AB by (simp add: list_all_iff)
  have refs: "map datum (circles (updateScatterPlot page_AB (Num 600))) = [2, 3]"
    by (simp add: datum_updateScatterPlot [OF wf_page_AB])
       (simp add: page_AB_def heap_AB_def upt_rec)
  have A: "arrivals_at [trip_morning] ''A'' = 0" "departures_at [trip_morning] ''A'' = 1"
    and B: "arrivals_at [trip_morning] ''B'' = 1" "departures_at [trip_morning] ''B'' = 0"
    by (simp_all add: arrivals_at_def departures_at_def trip_morning_def)
  have objs: "objs heap_AB 0 = station_A" "objs heap_AB (Suc 0) = station_B"
      "short_name station_A = ''A''" "short_name station_B = ''B''"
      "store page_AB = heap_AB" "json_stations page_AB = [0, 1]" "next_ref heap_AB = 2"
    by (simp_all add: heap_AB_def station_A_def station_B_def page_AB_def)
  from inst0 inst1 wf refs show ?thesis
    by (simp add: Let_def filtered_trips_page_AB enriched_def A B objs)
qed

end
